theory Spec2Isabelle
  imports Main
begin

section \<open>Values of the Go program\<close>

text \<open>
  The client of \<^verbatim>\<open>mpd/client.go\<close> talks to MPD through a \<^verbatim>\<open>textproto.Conn\<close>.
  Go strings are byte sequences, as \<^typ>\<open>string\<close> is; a Go \<^verbatim>\<open>int\<close> is modelled by
  \<^typ>\<open>int\<close> (the program does no arithmetic that could overflow).
\<close>

datatype errno = EINVAL | ERANGE

text \<open>
  The values of \<^verbatim>\<open>os.Error\<close> that reach a caller: \<^verbatim>\<open>textproto.ProtocolError(msg)\<close>,
  \<^verbatim>\<open>os.NewError(msg)\<close>, the \<^verbatim>\<open>*strconv.NumError\<close> of a failed \<^verbatim>\<open>Atoi\<close>, the end of
  the stream and any other failure of the network connection.
\<close>

datatype os_error =
    ProtocolError string
  | NewError string
  | NumError string errno
  | EOF
  | NetError string

datatype panic = NilDereference | SliceBoundsOutOfRange | OutOfSync

text \<open>
  What a call does: it returns a value, returns an error, panics, or blocks for ever
  (waiting for its turn in the response sequence of the connection).
\<close>

datatype 'a outcome = Ok 'a | Err os_error | Panic panic | Blocked

datatype arg = I int | S string

type_synonym Attrs = "string \<rightharpoonup> string"

section \<open>Library functions the client calls\<close>

text \<open>\<^verbatim>\<open>strings.HasPrefix\<close> and \<^verbatim>\<open>strings.Index\<close> (first occurrence, or \<open>-1\<close>).\<close>

definition HasPrefix :: "string \<Rightarrow> string \<Rightarrow> bool" where
  "HasPrefix s p = (length p \<le> length s \<and> take (length p) s = p)"

fun Index :: "string \<Rightarrow> string \<Rightarrow> int" where
  "Index [] sep = (if sep = [] then 0 else - 1)"
| "Index (c # s) sep =
     (if HasPrefix (c # s) sep then 0
      else (let i = Index s sep in if i < 0 then - 1 else i + 1))"

text \<open>
  The connection, \<^verbatim>\<open>textproto.Conn\<close> of the Go library. The environment fixes what the
  peer and the network will do: the results of the successive \<^verbatim>\<open>ReadLine\<close> calls
  (\<open>incoming\<close>; once exhausted the stream is at its end), of the successive writes
  (\<open>wresults\<close>; once exhausted every write succeeds) and of \<^verbatim>\<open>Close\<close>. The connection
  records what was done to it: the command lines written (format and arguments, as handed
  to \<^verbatim>\<open>PrintfLine\<close>), the number of reads, the ids whose response was asked for, whether
  it was closed, and the two counters of its \<^verbatim>\<open>Pipeline\<close>: the next command id and the
  id whose response may be read now (Go's \<^verbatim>\<open>uint\<close>, counted here without wrap-around).
\<close>

record conn =
  incoming :: "(os_error + string) list"
  wresults :: "os_error option list"
  close_result :: "os_error option"
  written :: "(string \<times> arg list) list"
  nreads :: nat
  awaited :: "nat list"
  next_id :: nat
  resp_id :: nat
  closed :: bool

definition ReadLine :: "conn \<Rightarrow> (os_error + string) \<times> conn" where
  "ReadLine t =
     (case incoming t of
        [] \<Rightarrow> (Inl EOF, t\<lparr>nreads := nreads t + 1\<rparr>)
      | r # rs \<Rightarrow> (r, t\<lparr>incoming := rs, nreads := nreads t + 1\<rparr>))"

definition PrintfLine :: "string \<Rightarrow> arg list \<Rightarrow> conn \<Rightarrow> os_error option \<times> conn" where
  "PrintfLine format args t =
     (case wresults t of
        [] \<Rightarrow> (None, t\<lparr>written := written t @ [(format, args)]\<rparr>)
      | None # ws \<Rightarrow> (None, t\<lparr>wresults := ws, written := written t @ [(format, args)]\<rparr>)
      | Some e # ws \<Rightarrow> (Some e, t\<lparr>wresults := ws\<rparr>))"

text \<open>
  \<^verbatim>\<open>Conn.Cmd\<close> takes the next id, writes the line inside its request bracket and returns
  the id, or \<open>0\<close> and the error of the write.
\<close>

definition Cmd :: "string \<Rightarrow> arg list \<Rightarrow> conn \<Rightarrow> (nat \<times> os_error option) \<times> conn" where
  "Cmd format args t =
     (let rid = next_id t;
          (err, t') = PrintfLine format args (t\<lparr>next_id := rid + 1\<rparr>)
      in case err of
           Some e \<Rightarrow> ((0, Some e), t')
         | None \<Rightarrow> ((rid, None), t'))"

text \<open>
  \<^verbatim>\<open>StartResponse(id)\<close> returns when \<open>id\<close> has the turn and blocks otherwise (\<open>False\<close>:
  with a single goroutine nothing can pass it the turn); \<^verbatim>\<open>EndResponse(id)\<close> passes the
  turn to \<open>id + 1\<close> and panics (\<open>None\<close>) when \<open>id\<close> did not have it.
\<close>

definition StartResponse :: "nat \<Rightarrow> conn \<Rightarrow> bool \<times> conn" where
  "StartResponse rid t = (resp_id t = rid, t\<lparr>awaited := awaited t @ [rid]\<rparr>)"

definition EndResponse :: "nat \<Rightarrow> conn \<Rightarrow> conn option" where
  "EndResponse rid t = (if resp_id t \<noteq> rid then None else Some (t\<lparr>resp_id := rid + 1\<rparr>))"

definition conn_Close :: "conn \<Rightarrow> os_error option \<times> conn" where
  "conn_Close t = (close_result t, t\<lparr>closed := True\<rparr>)"

section \<open>The response readers\<close>

text \<open>
  The readers are methods of the client that only use its connection, and they are called
  after \<^verbatim>\<open>c.text.Cmd\<close> has returned, when \<open>c.text\<close> is not \<open>nil\<close>: they are given the
  connection. The slices \<^verbatim>\<open>line[0:z]\<close> and \<^verbatim>\<open>line[z+2:]\<close> are in range whenever \<open>z\<close> is
  not negative (lemma \<open>Index_bounds\<close>).

  The loop of \<^verbatim>\<open>readAttrs\<close>, with the map built so far.
\<close>

function readAttrs_loop :: "Attrs \<Rightarrow> conn \<Rightarrow> Attrs outcome \<times> conn" where
  "readAttrs_loop attrs t =
     (case ReadLine t of
        (Inl err, t') \<Rightarrow> (Err err, t')
      | (Inr line, t') \<Rightarrow>
          if line = ''OK'' then (Ok attrs, t')
          else (let z = Index line '': '' in
                if z < 0 then (Err (ProtocolError (''can't parse line: '' @ line)), t')
                else (let key = take (nat z) line
                      in readAttrs_loop (attrs(key \<mapsto> drop (nat z + 2) line)) t')))"
  by pat_completeness auto
termination
  by (relation "measure (\<lambda>(attrs, t). length (incoming t))")
     (auto simp: ReadLine_def split: list.splits)

definition readAttrs :: "conn \<Rightarrow> Attrs outcome \<times> conn" where
  "readAttrs t = readAttrs_loop Map.empty t"

text \<open>The loop of \<^verbatim>\<open>readPlaylist\<close>, with the records built so far.\<close>

function readPlaylist_loop :: "Attrs list \<Rightarrow> conn \<Rightarrow> Attrs list outcome \<times> conn" where
  "readPlaylist_loop pls t =
     (case ReadLine t of
        (Inl err, t') \<Rightarrow> (Err err, t')
      | (Inr line, t') \<Rightarrow>
          if line = ''OK'' then (Ok pls, t')
          else (let pls1 = (if HasPrefix line ''file:'' then pls @ [Map.empty] else pls) in
                if length pls1 = 0 then (Err (ProtocolError (''unexpected: '' @ line)), t')
                else (let z = Index line '': '' in
                      if z < 0 then (Err (ProtocolError (''can't parse line: '' @ line)), t')
                      else (let key = take (nat z) line
                            in readPlaylist_loop
                                 (pls1[length pls1 - 1 :=
                                    (pls1 ! (length pls1 - 1))(key \<mapsto> drop (nat z + 2) line)])
                                 t'))))"
  by pat_completeness auto
termination
  by (relation "measure (\<lambda>(pls, t). length (incoming t))")
     (auto simp: ReadLine_def split: list.splits)

definition readPlaylist :: "conn \<Rightarrow> Attrs list outcome \<times> conn" where
  "readPlaylist t = readPlaylist_loop [] t"

section \<open>The client\<close>

text \<open>
  \<^verbatim>\<open>Client\<close> holds one pointer, \<open>text\<close>, that is \<open>nil\<close> or refers to the connection made
  by \<^verbatim>\<open>Dial\<close>; \<open>net\<close> is that connection, which outlives the pointer.
\<close>

datatype ptr = nil | Ref

record Client =
  "text" :: ptr
  net :: conn

text \<open>
  The Go slice expression \<^verbatim>\<open>s[lo:hi]\<close> on a string: in range when \<open>lo \<le> hi \<le> len(s)\<close>,
  a run-time panic (\<open>None\<close>) otherwise.
\<close>

definition substr :: "string \<Rightarrow> nat \<Rightarrow> nat \<Rightarrow> string option" where
  "substr s lo hi =
     (if lo \<le> hi \<and> hi \<le> length s then Some (take (hi - lo) (drop lo s)) else None)"

text \<open>
  \<^verbatim>\<open>Dial\<close>; \<open>dialed\<close> is what \<^verbatim>\<open>textproto.Dial(network, addr)\<close> returned.
\<close>

definition Dial :: "os_error + conn \<Rightarrow> Client outcome" where
  "Dial dialed =
     (case dialed of
        Inl err \<Rightarrow> Err err
      | Inr t \<Rightarrow>
          (case ReadLine t of
             (Inl err, t') \<Rightarrow> Err err
           | (Inr line, t') \<Rightarrow>
               (case substr line 0 6 of
                  None \<Rightarrow> Panic SliceBoundsOutOfRange
                | Some greeting \<Rightarrow>
                    if greeting \<noteq> ''OK MPD'' then Err (ProtocolError ''no greeting'')
                    else Ok \<lparr>text = Ref, net = t'\<rparr>)))"

definition Close :: "Client \<Rightarrow> os_error option \<times> Client" where
  "Close c =
     (if text c \<noteq> nil
      then (let (_, t1) = PrintfLine ''close'' [] (net c);
                (err, t2) = conn_Close t1
            in (err, c\<lparr>text := nil, net := t2\<rparr>))
      else (None, c))"

text \<open>
  The bracket every operation puts around its reading:
  \<^verbatim>\<open>c.text.StartResponse(id); defer c.text.EndResponse(id); return body\<close>.
  The deferred call runs when the body has returned or panicked.
\<close>

definition in_response :: "nat \<Rightarrow> (conn \<Rightarrow> 'a outcome \<times> conn) \<Rightarrow> conn \<Rightarrow> 'a outcome \<times> conn" where
  "in_response rid body t =
     (let (turn, t1) = StartResponse rid t
      in if \<not> turn then (Blocked, t1)
         else (let (r, t2) = body t1
               in case EndResponse rid t2 of
                    None \<Rightarrow> (Panic OutOfSync, t2)
                  | Some t3 \<Rightarrow> (r, t3)))"

text \<open>
  An operation that sends one command and reads its response with \<open>body\<close>:
  \<^verbatim>\<open>id, err := c.text.Cmd(format, args...); if err != nil { return nil, err }\<close>
  and then the bracket. Calling \<^verbatim>\<open>Cmd\<close> through a \<open>nil\<close> pointer panics.
\<close>

definition command :: "string \<Rightarrow> arg list \<Rightarrow> (conn \<Rightarrow> 'a outcome \<times> conn) \<Rightarrow> Client
    \<Rightarrow> 'a outcome \<times> Client" where
  "command format args body c =
     (case text c of
        nil \<Rightarrow> (Panic NilDereference, c)
      | Ref \<Rightarrow>
          (case Cmd format args (net c) of
             ((rid, Some err), t1) \<Rightarrow> (Err err, c\<lparr>net := t1\<rparr>)
           | ((rid, None), t1) \<Rightarrow>
               (let (r, t2) = in_response rid body t1 in (r, c\<lparr>net := t2\<rparr>))))"

definition CurrentSong :: "Client \<Rightarrow> Attrs outcome \<times> Client" where
  "CurrentSong c = command ''currentsong'' [] readAttrs c"

definition Status :: "Client \<Rightarrow> Attrs outcome \<times> Client" where
  "Status c = command ''status'' [] readAttrs c"

definition readOKLine :: "conn \<Rightarrow> unit outcome \<times> conn" where
  "readOKLine t =
     (case ReadLine t of
        (Inl err, t') \<Rightarrow> (Err err, t')
      | (Inr line, t') \<Rightarrow>
          if line = ''OK'' then (Ok (), t')
          else (Err (ProtocolError (''unexpected response: '' @ line)), t'))"

definition okCmd :: "string \<Rightarrow> arg list \<Rightarrow> Client \<Rightarrow> unit outcome \<times> Client" where
  "okCmd format args c = command format args readOKLine c"

definition Ping :: "Client \<Rightarrow> unit outcome \<times> Client" where
  "Ping c = okCmd ''ping'' [] c"

definition Next :: "Client \<Rightarrow> unit outcome \<times> Client" where
  "Next c = okCmd ''next'' [] c"

definition Pause :: "bool \<Rightarrow> Client \<Rightarrow> unit outcome \<times> Client" where
  "Pause pause c = (if pause then okCmd ''pause 1'' [] c else okCmd ''pause 0'' [] c)"

text \<open>
  \<^verbatim>\<open>Play\<close> drops the result of its first \<^verbatim>\<open>okCmd\<close> and goes on, unless that call
  panicked or never returned.
\<close>

definition Play :: "int \<Rightarrow> Client \<Rightarrow> unit outcome \<times> Client" where
  "Play pos c =
     (if pos < 0
      then (case okCmd ''play'' [] c of
              (Panic p, c1) \<Rightarrow> (Panic p, c1)
            | (Blocked, c1) \<Rightarrow> (Blocked, c1)
            | (_, c1) \<Rightarrow> okCmd ''play %d'' [I pos] c1)
      else okCmd ''play %d'' [I pos] c)"

definition PlayId :: "int \<Rightarrow> Client \<Rightarrow> unit outcome \<times> Client" where
  "PlayId ident c = (if ident < 0 then okCmd ''playid'' [] c else okCmd ''playid %d'' [I ident] c)"

definition Previous :: "Client \<Rightarrow> unit outcome \<times> Client" where
  "Previous c = okCmd ''next'' [] c"

definition Seek :: "int \<Rightarrow> int \<Rightarrow> Client \<Rightarrow> unit outcome \<times> Client" where
  "Seek pos time c = okCmd ''seek %d %d'' [I pos, I time] c"

definition SeekId :: "int \<Rightarrow> int \<Rightarrow> Client \<Rightarrow> unit outcome \<times> Client" where
  "SeekId ident time c = okCmd ''seekid %d %d'' [I ident, I time] c"

definition Stop :: "Client \<Rightarrow> unit outcome \<times> Client" where
  "Stop c = okCmd ''stop'' [] c"

text \<open>What follows a call that returned normally; an error, a panic or a block is passed on.\<close>

definition and_then :: "'a outcome \<Rightarrow> ('a \<Rightarrow> 'b outcome) \<Rightarrow> 'b outcome" where
  "and_then r f = (case r of Ok v \<Rightarrow> f v | Err e \<Rightarrow> Err e | Panic p \<Rightarrow> Panic p | Blocked \<Rightarrow> Blocked)"

text \<open>
  The Go slice expression \<^verbatim>\<open>pls[lo:hi]\<close> on a slice of length \<open>length xs\<close> and capacity
  \<open>cap\<close>: in range when \<open>0 \<le> lo \<le> hi \<le> cap\<close>, a run-time panic (\<open>None\<close>) otherwise.
  The elements between the length and the capacity are those of the backing array, which
  \<^verbatim>\<open>append\<close> left at the zero value \<open>zero\<close>.
\<close>

definition reslice :: "nat \<Rightarrow> 'a \<Rightarrow> 'a list \<Rightarrow> int \<Rightarrow> int \<Rightarrow> 'a list option" where
  "reslice cap zero xs lo hi =
     (if 0 \<le> lo \<and> lo \<le> hi \<and> hi \<le> int cap
      then Some (take (nat hi - nat lo) (drop (nat lo) (xs @ replicate (cap - length xs) zero)))
      else None)"

text \<open>
  The capacity of the slice \<^verbatim>\<open>readPlaylist\<close> returns. The literal \<^verbatim>\<open>[]Attrs{}\<close> has
  capacity 0, and it is returned as it is when no record was appended. Otherwise the Go
  runtime has chosen the capacity as \<^verbatim>\<open>append\<close> grew the slice; the source does not fix
  that choice, which is the parameter \<open>runtime_cap\<close>, a function of the number of records;
  the capacity is never less than the length.
\<close>

definition cap_of :: "(nat \<Rightarrow> nat) \<Rightarrow> 'a list \<Rightarrow> nat" where
  "cap_of runtime_cap xs =
     (if xs = [] then 0 else max (length xs) (runtime_cap (length xs)))"

text \<open>The end of \<^verbatim>\<open>PlaylistInfo\<close>, after \<^verbatim>\<open>readPlaylist\<close> has returned \<open>r\<close>.\<close>

definition PlaylistInfo_slice :: "(nat \<Rightarrow> nat) \<Rightarrow> int \<Rightarrow> int \<Rightarrow> Attrs list outcome
    \<Rightarrow> Attrs list outcome" where
  "PlaylistInfo_slice runtime_cap start end r =
     and_then r (\<lambda>pls.
       if start < 0 \<or> end < 0 then Ok pls
       else (case reslice (cap_of runtime_cap pls) Map.empty pls start end of
               None \<Rightarrow> Panic SliceBoundsOutOfRange
             | Some s \<Rightarrow> Ok s))"

definition PlaylistInfo :: "(nat \<Rightarrow> nat) \<Rightarrow> int \<Rightarrow> int \<Rightarrow> Client
    \<Rightarrow> Attrs list outcome \<times> Client" where
  "PlaylistInfo runtime_cap start end c =
     (if start < 0 \<and> end \<ge> 0 then (Err (NewError ''negative start index''), c)
      else if start \<ge> 0 \<and> end < 0
      then command ''playlistinfo %d'' [I start] readPlaylist c
      else command ''playlistinfo'' []
             (\<lambda>t. let (r, t') = readPlaylist t
                  in (PlaylistInfo_slice runtime_cap start end r, t')) c)"

definition Delete :: "int \<Rightarrow> int \<Rightarrow> Client \<Rightarrow> unit outcome \<times> Client" where
  "Delete start end c =
     (if start < 0 then (Err (NewError ''negative start index''), c)
      else if end < 0 then okCmd ''delete %d'' [I start] c
      else okCmd ''delete %d %d'' [I start, I end] c)"

definition DeleteId :: "int \<Rightarrow> Client \<Rightarrow> unit outcome \<times> Client" where
  "DeleteId ident c = okCmd ''deleteid %d'' [I ident] c"

definition Add :: "string \<Rightarrow> Client \<Rightarrow> unit outcome \<times> Client" where
  "Add uri c = okCmd ''add %q'' [S uri] c"

text \<open>
  The end of \<^verbatim>\<open>AddId\<close>, after \<^verbatim>\<open>readAttrs\<close> has returned \<open>r\<close>. \<^verbatim>\<open>strconv.Atoi\<close> is the
  parameter \<open>atoi\<close>; its failure on \<open>tok\<close> is the error \<^verbatim>\<open>&NumError{tok, errno}\<close>. The
  integer that Go returns next to an error (\<open>-1\<close>, or what \<^verbatim>\<open>Atoi\<close> gives) is left out.
\<close>

definition AddId_result :: "(string \<Rightarrow> errno + int) \<Rightarrow> Attrs outcome \<Rightarrow> int outcome" where
  "AddId_result atoi r =
     and_then r (\<lambda>attrs.
       case attrs ''Id'' of
         None \<Rightarrow> Err (ProtocolError ''addid did not return Id'')
       | Some tok \<Rightarrow> (case atoi tok of Inl e \<Rightarrow> Err (NumError tok e) | Inr n \<Rightarrow> Ok n))"

text \<open>
  \<^verbatim>\<open>AddId\<close>: the first \<^verbatim>\<open>Cmd\<close>, made when \<open>pos \<ge> 0\<close>, has its id and error overwritten
  by the second.
\<close>

definition AddId :: "(string \<Rightarrow> errno + int) \<Rightarrow> string \<Rightarrow> int \<Rightarrow> Client
    \<Rightarrow> int outcome \<times> Client" where
  "AddId atoi uri pos c =
     (case text c of
        nil \<Rightarrow> (Panic NilDereference, c)
      | Ref \<Rightarrow>
          (let t0 = (if pos \<ge> 0 then snd (Cmd ''addid %q %d'' [S uri, I pos] (net c)) else net c)
           in case Cmd ''addid %q'' [S uri] t0 of
                ((rid, Some err), t1) \<Rightarrow> (Err err, c\<lparr>net := t1\<rparr>)
              | ((rid, None), t1) \<Rightarrow>
                  (let (r, t2) = in_response rid
                         (\<lambda>t. let (ra, t') = readAttrs t in (AddId_result atoi ra, t')) t1
                   in (r, c\<lparr>net := t2\<rparr>))))"

definition Clear :: "Client \<Rightarrow> unit outcome \<times> Client" where
  "Clear c = okCmd ''clear'' [] c"

section \<open>The specification's reading of a record sequence\<close>

text \<open>
  The specification describes record-sequence decoding on parsed key/value lines: a line
  whose key equals the marker key \<open>file\<close> appends a new empty Attribute Set, which
  becomes current; a key/value line that arrives before any marker is a failure
  (\<open>None\<close>); every key/value line is inserted into the current Attribute Set.
  \<open>spec_records\<close> follows these words, not the code.
\<close>

fun spec_records :: "Attrs list \<Rightarrow> (string \<times> string) list \<Rightarrow> Attrs list option" where
  "spec_records recs [] = Some recs"
| "spec_records recs ((k, v) # kvs) =
     (let recs1 = (if k = ''file'' then recs @ [Map.empty] else recs)
      in if recs1 = [] then None
         else spec_records (butlast recs1 @ [(last recs1)(k \<mapsto> v)]) kvs)"

text \<open>The data line the server writes for a key and a value.\<close>

definition data_line :: "string \<Rightarrow> string \<Rightarrow> string" where
  "data_line k v = k @ '': '' @ v"

section \<open>Connections and clients of the examples\<close>

text \<open>
  A connection on which nothing has been done yet, to a peer that sends the given lines
  and then closes the stream; a client that \<^verbatim>\<open>Dial\<close> returned for a connection.
\<close>

definition peer_sends :: "string list \<Rightarrow> conn" where
  "peer_sends ls =
     \<lparr>incoming = map Inr ls, wresults = [], close_result = None, written = [], nreads = 0,
      awaited = [], next_id = 0, resp_id = 0, closed = False\<rparr>"

definition connected :: "conn \<Rightarrow> Client" where
  "connected t = \<lparr>text = Ref, net = t\<rparr>"

section \<open>Facts about the library functions\<close>

lemma Index_lower: "- 1 \<le> Index s sep"
  by (induction s) (auto simp: Let_def)

lemma Index_bounds: "0 \<le> Index s sep \<Longrightarrow> nat (Index s sep) + length sep \<le> length s"
  by (induction s) (auto simp: Let_def HasPrefix_def split: if_splits)

text \<open>
  A key that does not contain the delimiter is found again in front of it, so the slices
  \<^verbatim>\<open>line[0:z]\<close> and \<^verbatim>\<open>line[z+2:]\<close> of the readers give back key and value.
\<close>

lemma Index_key: "Index k '': '' < 0 \<Longrightarrow> Index (k @ '': '' @ v) '': '' = int (length k)"
proof (induction k)
  case Nil
  show ?case by (simp add: HasPrefix_def)
next
  case (Cons c k)
  from Cons.prems have np: "\<not> HasPrefix (c # k) '': ''" and neg: "Index k '': '' < 0"
    by (auto simp: Let_def split: if_splits)
  have "\<not> HasPrefix (c # k @ '': '' @ v) '': ''"
    using np by (cases k) (auto simp: HasPrefix_def)
  with Cons.IH [OF neg] show ?case by (simp add: Let_def)
qed

section \<open>One turn of a reader's loop\<close>

declare readAttrs_loop.simps [simp del] readPlaylist_loop.simps [simp del]

lemma conn_update_order [simp]:
  "t\<lparr>nreads := n, incoming := xs\<rparr> = t\<lparr>incoming := xs, nreads := n\<rparr>"
  by (cases t) simp

lemma readAttrs_loop_step:
  "readAttrs_loop attrs (t\<lparr>incoming := x # rest\<rparr>) =
     (let t' = t\<lparr>incoming := rest, nreads := nreads t + 1\<rparr> in
      case x of
        Inl err \<Rightarrow> (Err err, t')
      | Inr line \<Rightarrow>
          if line = ''OK'' then (Ok attrs, t')
          else if Index line '': '' < 0
               then (Err (ProtocolError (''can't parse line: '' @ line)), t')
               else readAttrs_loop
                      (attrs(take (nat (Index line '': '')) line \<mapsto>
                         drop (nat (Index line '': '') + 2) line)) t')"
  by (subst readAttrs_loop.simps) (simp add: ReadLine_def Let_def split: sum.splits)

lemma readPlaylist_loop_step:
  "readPlaylist_loop pls (t\<lparr>incoming := x # rest\<rparr>) =
     (let t' = t\<lparr>incoming := rest, nreads := nreads t + 1\<rparr> in
      case x of
        Inl err \<Rightarrow> (Err err, t')
      | Inr line \<Rightarrow>
          if line = ''OK'' then (Ok pls, t')
          else (let pls1 = (if HasPrefix line ''file:'' then pls @ [Map.empty] else pls) in
                if pls1 = [] then (Err (ProtocolError (''unexpected: '' @ line)), t')
                else if Index line '': '' < 0
                     then (Err (ProtocolError (''can't parse line: '' @ line)), t')
                     else readPlaylist_loop
                            (pls1[length pls1 - 1 :=
                               (pls1 ! (length pls1 - 1))
                                 (take (nat (Index line '': '')) line \<mapsto>
                                  drop (nat (Index line '': '') + 2) line)]) t'))"
  by (subst readPlaylist_loop.simps) (simp add: ReadLine_def Let_def split: sum.splits)

text \<open>
  Data lines that parse are consumed one by one; in \<^verbatim>\<open>readPlaylist\<close> they also need a
  record to go to, which the first of them opens when it begins with \<open>file:\<close>.
\<close>

lemma readAttrs_loop_data:
  "\<forall>d\<in>set ds. d \<noteq> ''OK'' \<and> 0 \<le> Index d '': '' \<Longrightarrow>
   \<exists>attrs'. readAttrs_loop attrs (t\<lparr>incoming := map Inr ds @ pending\<rparr>) =
     readAttrs_loop attrs' (t\<lparr>incoming := pending, nreads := nreads t + length ds\<rparr>)"
proof (induction ds arbitrary: attrs t)
  case Nil
  show ?case by (rule exI [of _ attrs]) simp
next
  case (Cons d ds)
  let ?a = "attrs(take (nat (Index d '': '')) d \<mapsto> drop (nat (Index d '': '') + 2) d)"
  from Cons.prems have d: "d \<noteq> ''OK''" "\<not> Index d '': '' < 0"
    and ds: "\<forall>d\<in>set ds. d \<noteq> ''OK'' \<and> 0 \<le> Index d '': ''" by auto
  from Cons.IH [OF ds, of ?a "t\<lparr>nreads := nreads t + 1\<rparr>"] obtain attrs' where
    "readAttrs_loop ?a (t\<lparr>incoming := map Inr ds @ pending, nreads := nreads t + 1\<rparr>) =
     readAttrs_loop attrs' (t\<lparr>incoming := pending, nreads := nreads t + 1 + length ds\<rparr>)"
    by (auto simp del: fun_upd_apply)
  then show ?case using d
    by (intro exI [of _ attrs']) (simp add: readAttrs_loop_step Let_def)
qed

lemma readPlaylist_loop_data:
  "\<forall>d\<in>set ds. d \<noteq> ''OK'' \<and> 0 \<le> Index d '': '' \<Longrightarrow>
   pls \<noteq> [] \<or> (case ds of [] \<Rightarrow> True | d # _ \<Rightarrow> HasPrefix d ''file:'') \<Longrightarrow>
   \<exists>pls'. (pls' = [] \<longleftrightarrow> pls = [] \<and> ds = []) \<and>
     readPlaylist_loop pls (t\<lparr>incoming := map Inr ds @ pending\<rparr>) =
     readPlaylist_loop pls' (t\<lparr>incoming := pending, nreads := nreads t + length ds\<rparr>)"
proof (induction ds arbitrary: pls t)
  case Nil
  show ?case by (rule exI [of _ pls]) simp
next
  case (Cons d ds)
  let ?pls1 = "if HasPrefix d ''file:'' then pls @ [Map.empty] else pls"
  let ?pls2 = "?pls1[length ?pls1 - 1 := (?pls1 ! (length ?pls1 - 1))
      (take (nat (Index d '': '')) d \<mapsto> drop (nat (Index d '': '') + 2) d)]"
  from Cons.prems have d: "d \<noteq> ''OK''" "\<not> Index d '': '' < 0"
    and ds: "\<forall>d\<in>set ds. d \<noteq> ''OK'' \<and> 0 \<le> Index d '': ''"
    and ne: "?pls1 \<noteq> []" by auto
  then have ne2: "?pls2 \<noteq> []" by simp
  from Cons.IH [OF ds, of ?pls2 "t\<lparr>nreads := nreads t + 1\<rparr>"] ne2 obtain pls' where
    "pls' \<noteq> []"
    "readPlaylist_loop ?pls2 (t\<lparr>incoming := map Inr ds @ pending, nreads := nreads t + 1\<rparr>) =
     readPlaylist_loop pls' (t\<lparr>incoming := pending, nreads := nreads t + 1 + length ds\<rparr>)"
    by (auto simp del: fun_upd_apply)
  then show ?case using d ne
    by (intro exI [of _ pls']) (simp add: readPlaylist_loop_step Let_def)
qed

section \<open>The empty response\<close>

text \<open>
  C8. A response that is the single line \<open>OK\<close> decodes without error to an empty result:
  \<^verbatim>\<open>readAttrs\<close> returns the empty Attribute Set and \<^verbatim>\<open>readPlaylist\<close> the empty
  Record Sequence, each after one read that leaves the rest of the stream alone.
\<close>

theorem empty_response_decodes_to_empty:
  "readAttrs (t\<lparr>incoming := Inr ''OK'' # rest\<rparr>) =
     (Ok Map.empty, t\<lparr>incoming := rest, nreads := nreads t + 1\<rparr>) \<and>
   readPlaylist (t\<lparr>incoming := Inr ''OK'' # rest\<rparr>) =
     (Ok [], t\<lparr>incoming := rest, nreads := nreads t + 1\<rparr>)"
  by (simp add: readAttrs_def readPlaylist_def readAttrs_loop_step readPlaylist_loop_step)

section \<open>A line without the delimiter\<close>

text \<open>
  After any number of data lines that parse, a line that is not \<open>OK\<close> and does not contain
  the delimiter stops the reader with a \<^verbatim>\<open>textproto.ProtocolError\<close>; the lines behind it
  stay unread.
\<close>

lemma undelimited_readAttrs:
  assumes "line \<noteq> ''OK''" and "Index line '': '' < 0"
    and "\<forall>d\<in>set ds. d \<noteq> ''OK'' \<and> 0 \<le> Index d '': ''"
  shows "readAttrs (t\<lparr>incoming := map Inr ds @ Inr line # rest\<rparr>) =
      (Err (ProtocolError (''can't parse line: '' @ line)),
       t\<lparr>incoming := rest, nreads := nreads t + length ds + 1\<rparr>)"
proof -
  obtain attrs' where
    "readAttrs_loop Map.empty (t\<lparr>incoming := map Inr ds @ Inr line # rest\<rparr>) =
     readAttrs_loop attrs' (t\<lparr>incoming := Inr line # rest, nreads := nreads t + length ds\<rparr>)"
    using readAttrs_loop_data [OF assms(3)] by blast
  then show ?thesis
    using assms(1,2)
      readAttrs_loop_step [where attrs = attrs' and t = "t\<lparr>nreads := nreads t + length ds\<rparr>"
        and x = "Inr line" and rest = rest]
    by (simp add: readAttrs_def)
qed

lemma undelimited_readPlaylist:
  assumes "line \<noteq> ''OK''" and "Index line '': '' < 0"
    and "\<forall>d\<in>set ds. d \<noteq> ''OK'' \<and> 0 \<le> Index d '': ''"
    and "case ds of [] \<Rightarrow> True | d # _ \<Rightarrow> HasPrefix d ''file:''"
  shows "readPlaylist (t\<lparr>incoming := map Inr ds @ Inr line # rest\<rparr>) =
      (Err (ProtocolError
         ((if ds = [] \<and> \<not> HasPrefix line ''file:'' then ''unexpected: ''
           else ''can't parse line: '') @ line)),
       t\<lparr>incoming := rest, nreads := nreads t + length ds + 1\<rparr>)"
proof -
  obtain pls' where e: "pls' = [] \<longleftrightarrow> ds = []" and
    "readPlaylist_loop [] (t\<lparr>incoming := map Inr ds @ Inr line # rest\<rparr>) =
     readPlaylist_loop pls' (t\<lparr>incoming := Inr line # rest, nreads := nreads t + length ds\<rparr>)"
    using readPlaylist_loop_data [OF assms(3), of "[]"] assms(4) by blast
  then show ?thesis
    using assms(1,2)
      readPlaylist_loop_step [where pls = pls' and t = "t\<lparr>nreads := nreads t + length ds\<rparr>"
        and x = "Inr line" and rest = rest]
    by (simp add: readPlaylist_def)
qed

lemma ACK_line: "HasPrefix line ''ACK'' \<Longrightarrow> line \<noteq> ''OK'' \<and> \<not> HasPrefix line ''file:''"
  by (cases line) (auto simp: HasPrefix_def)

lemmas run = readAttrs_def readPlaylist_def readAttrs_loop.simps readPlaylist_loop.simps
  ReadLine_def HasPrefix_def peer_sends_def

section \<open>Lines that begin with ACK\<close>

text \<open>
  C1, as the claim states it, fails: neither reader looks for \<open>ACK\<close>. The response
  \<open>ACK some error\<close> makes \<^verbatim>\<open>readAttrs\<close> return the error \<open>can't parse line: ACK some error\<close>,
  not \<open>some error\<close>, and \<^verbatim>\<open>readPlaylist\<close> the error \<open>unexpected: ACK some error\<close>; an
  \<open>ACK\<close> line that contains the delimiter ends nothing: it is stored as a key and a value
  and reading goes on.
\<close>

theorem ack_message_counterexample:
  "fst (readAttrs (peer_sends [''ACK some error''])) =
     Err (ProtocolError ''can't parse line: ACK some error'') \<and>
   fst (readAttrs (peer_sends [''ACK some error''])) \<noteq> Err (ProtocolError ''some error'') \<and>
   fst (readPlaylist (peer_sends [''ACK some error''])) =
     Err (ProtocolError ''unexpected: ACK some error'') \<and>
   readAttrs (peer_sends [''volume: 50'', ''ACK [50@0] {play} song doesn't exist: 7'', ''OK'']) =
     (Ok [''volume'' \<mapsto> ''50'', ''ACK [50@0] {play} song doesn't exist'' \<mapsto> ''7''],
      (peer_sends [])\<lparr>nreads := 3\<rparr>)"
  by (simp add: run)

text \<open>
  C1, amended. A line that begins with \<open>ACK\<close> and does not contain the delimiter \<open>": "\<close>
  ends the decode with a \<^verbatim>\<open>textproto.ProtocolError\<close> whose message is the whole line after
  the words \<open>can't parse line: \<close> (in \<^verbatim>\<open>readPlaylist\<close>, after \<open>unexpected: \<close> when no record
  has been opened), whatever data lines that parse came before it; the line is the last
  one read.
\<close>

theorem ack_line_reported_as_unparsable:
  assumes "HasPrefix line ''ACK''" and "Index line '': '' < 0"
    and "\<forall>d\<in>set ds. d \<noteq> ''OK'' \<and> 0 \<le> Index d '': ''"
  shows "readAttrs (t\<lparr>incoming := map Inr ds @ Inr line # rest\<rparr>) =
      (Err (ProtocolError (''can't parse line: '' @ line)),
       t\<lparr>incoming := rest, nreads := nreads t + length ds + 1\<rparr>) \<and>
    ((case ds of [] \<Rightarrow> True | d # _ \<Rightarrow> HasPrefix d ''file:'') \<longrightarrow>
     readPlaylist (t\<lparr>incoming := map Inr ds @ Inr line # rest\<rparr>) =
      (Err (ProtocolError ((if ds = [] then ''unexpected: '' else ''can't parse line: '') @ line)),
       t\<lparr>incoming := rest, nreads := nreads t + length ds + 1\<rparr>))"
  using ACK_line [OF assms(1)] undelimited_readAttrs [OF _ assms(2,3)]
    undelimited_readPlaylist [OF _ assms(2,3)]
  by simp

theorem ack_line_reported_as_unparsable_witness:
  "readAttrs (peer_sends [''file: a'', ''Title: b'', ''ACK some error'']) =
     (Err (ProtocolError ''can't parse line: ACK some error''), (peer_sends [])\<lparr>nreads := 3\<rparr>) \<and>
   readPlaylist (peer_sends [''file: a'', ''Title: b'', ''ACK some error'']) =
     (Err (ProtocolError ''can't parse line: ACK some error''), (peer_sends [])\<lparr>nreads := 3\<rparr>)"
  using ack_line_reported_as_unparsable [where line = "''ACK some error''"
      and ds = "[''file: a'', ''Title: b'']" and t = "peer_sends []" and rest = "[]"]
  by (simp add: peer_sends_def HasPrefix_def)

section \<open>Malformed responses\<close>

text \<open>
  C5, as the claim states it, fails in its last sentence: the code has one kind of error
  for both. A rejection \<open>ACK [5@0] {} unknown command\<close> is reported by the very errors of a
  malformed line, \<open>can't parse line: \<close> or \<open>unexpected: \<close> followed by the line. And a
  key/value line before any line with the key \<open>file\<close> is accepted when it begins with
  \<open>file:\<close>.
\<close>

theorem ack_not_distinguished_counterexample:
  "HasPrefix ''ACK [5@0] {} unknown command'' ''ACK'' \<and>
   fst (readAttrs (peer_sends [''ACK [5@0] {} unknown command''])) =
     Err (ProtocolError (''can't parse line: '' @ ''ACK [5@0] {} unknown command'')) \<and>
   fst (readPlaylist (peer_sends [''file: a'', ''ACK [5@0] {} unknown command''])) =
     Err (ProtocolError (''can't parse line: '' @ ''ACK [5@0] {} unknown command'')) \<and>
   fst (readPlaylist (peer_sends [''ACK [5@0] {} unknown command''])) =
     Err (ProtocolError (''unexpected: '' @ ''ACK [5@0] {} unknown command'')) \<and>
   fst (readPlaylist (peer_sends [''file:x: y'', ''OK''])) = Ok [[''file:x'' \<mapsto> ''y'']]"
  by (simp add: run)

text \<open>
  C5, amended. In either reader a line other than \<open>OK\<close> that lacks the delimiter \<open>": "\<close>,
  after data lines that parse, ends the decode with a \<^verbatim>\<open>textproto.ProtocolError\<close> and no
  further line is read; in \<^verbatim>\<open>readPlaylist\<close> a first line that does not begin with \<open>file:\<close>
  ends it with the error \<open>unexpected: \<close> and the line. These errors are
  \<^verbatim>\<open>textproto.ProtocolError\<close> values; a line that begins with \<open>ACK\<close> gets no kind of its
  own.
\<close>

theorem malformed_line:
  assumes "line \<noteq> ''OK''"
  shows "(Index line '': '' < 0 \<and> (\<forall>d\<in>set ds. d \<noteq> ''OK'' \<and> 0 \<le> Index d '': '') \<longrightarrow>
      readAttrs (t\<lparr>incoming := map Inr ds @ Inr line # rest\<rparr>) =
        (Err (ProtocolError (''can't parse line: '' @ line)),
         t\<lparr>incoming := rest, nreads := nreads t + length ds + 1\<rparr>) \<and>
      ((case ds of [] \<Rightarrow> True | d # _ \<Rightarrow> HasPrefix d ''file:'') \<longrightarrow>
       readPlaylist (t\<lparr>incoming := map Inr ds @ Inr line # rest\<rparr>) =
        (Err (ProtocolError
           ((if ds = [] \<and> \<not> HasPrefix line ''file:'' then ''unexpected: ''
             else ''can't parse line: '') @ line)),
         t\<lparr>incoming := rest, nreads := nreads t + length ds + 1\<rparr>))) \<and>
    (\<not> HasPrefix line ''file:'' \<longrightarrow>
      readPlaylist (t\<lparr>incoming := Inr line # rest\<rparr>) =
        (Err (ProtocolError (''unexpected: '' @ line)),
         t\<lparr>incoming := rest, nreads := nreads t + 1\<rparr>))"
  using assms undelimited_readAttrs [OF assms] undelimited_readPlaylist [OF assms]
  by (simp add: readPlaylist_def readPlaylist_loop_step)

theorem malformed_line_witness:
  "readAttrs (peer_sends [''volume: 50'', ''garbage'', ''state: play'', ''OK'']) =
     (Err (ProtocolError ''can't parse line: garbage''),
      (peer_sends [''state: play'', ''OK''])\<lparr>nreads := 2\<rparr>) \<and>
   readPlaylist (peer_sends [''file: a'', ''garbage'', ''Title: b'', ''OK'']) =
     (Err (ProtocolError ''can't parse line: garbage''),
      (peer_sends [''Title: b'', ''OK''])\<lparr>nreads := 2\<rparr>) \<and>
   readPlaylist (peer_sends [''Title: b'', ''file: a'', ''OK'']) =
     (Err (ProtocolError ''unexpected: Title: b''),
      (peer_sends [''file: a'', ''OK''])\<lparr>nreads := 1\<rparr>)"
  using malformed_line [where line = "''garbage''" and ds = "[''volume: 50'']"
      and t = "peer_sends []" and rest = "[Inr ''state: play'', Inr ''OK'']"]
    malformed_line [where line = "''garbage''" and ds = "[''file: a'']"
      and t = "peer_sends []" and rest = "[Inr ''Title: b'', Inr ''OK'']"]
    malformed_line [where line = "''Title: b''" and ds = "[]"
      and t = "peer_sends []" and rest = "[Inr ''file: a'', Inr ''OK'']"]
  by (simp add: peer_sends_def HasPrefix_def)

section \<open>Records of a playlist\<close>

text \<open>
  A data line begins with \<open>file:\<close> when its key is \<open>file\<close> or itself begins with \<open>file:\<close>;
  a key without the delimiter comes back from its data line, with its value.
\<close>

lemma marker_line:
  "HasPrefix (data_line k v) ''file:'' \<longleftrightarrow> k = ''file'' \<or> HasPrefix k ''file:''"
proof (cases k)
  case Nil
  then show ?thesis by (simp add: HasPrefix_def data_line_def)
next
  case (Cons a k1)
  show ?thesis
  proof (cases k1)
    case Nil
    with Cons show ?thesis by (simp add: HasPrefix_def data_line_def)
  next
    case (Cons b k2)
    note k1 = this
    show ?thesis
    proof (cases k2)
      case Nil
      with k1 \<open>k = a # k1\<close> show ?thesis by (simp add: HasPrefix_def data_line_def)
    next
      case (Cons c k3)
      note k2 = this
      show ?thesis
      proof (cases k3)
        case Nil
        with k1 k2 \<open>k = a # k1\<close> show ?thesis by (simp add: HasPrefix_def data_line_def)
      next
        case (Cons d k4)
        with k1 k2 \<open>k = a # k1\<close> show ?thesis
          by (cases k4) (auto simp: HasPrefix_def data_line_def)
      qed
    qed
  qed
qed

lemma data_line_parses:
  assumes "Index k '': '' < 0"
  shows "data_line k v \<noteq> ''OK''"
    and "Index (data_line k v) '': '' = int (length k)"
    and "take (length k) (data_line k v) = k"
    and "drop (length k + 2) (data_line k v) = v"
proof -
  show I: "Index (data_line k v) '': '' = int (length k)"
    unfolding data_line_def by (rule Index_key [OF assms])
  have "Index ''OK'' '': '' < 0" by (simp add: HasPrefix_def)
  with I show "data_line k v \<noteq> ''OK''" by (metis of_nat_less_0_iff)
  show "take (length k) (data_line k v) = k" by (simp add: data_line_def)
  show "drop (length k + 2) (data_line k v) = v" by (simp add: data_line_def)
qed

lemma update_last:
  "xs \<noteq> [] \<Longrightarrow> xs[length xs - 1 := (xs ! (length xs - 1))(k \<mapsto> v)] =
     butlast xs @ [(last xs)(k \<mapsto> v)]"
  by (cases xs rule: rev_cases) (simp_all del: fun_upd_apply)

lemma readPlaylist_loop_data_line:
  assumes k: "Index k '': '' < 0" "k = ''file'' \<or> \<not> HasPrefix k ''file:''"
    and pls1: "pls1 = (if k = ''file'' then pls @ [Map.empty] else pls)" "pls1 \<noteq> []"
  shows "readPlaylist_loop pls (t\<lparr>incoming := Inr (data_line k v) # pending\<rparr>) =
     readPlaylist_loop (butlast pls1 @ [(last pls1)(k \<mapsto> v)])
       (t\<lparr>incoming := pending, nreads := nreads t + 1\<rparr>)"
proof -
  have marker: "HasPrefix (data_line k v) ''file:'' \<longleftrightarrow> k = ''file''"
    unfolding marker_line using k(2) by (auto simp: HasPrefix_def)
  have "readPlaylist_loop pls (t\<lparr>incoming := Inr (data_line k v) # pending\<rparr>) =
     readPlaylist_loop (pls1[length pls1 - 1 := (pls1 ! (length pls1 - 1))(k \<mapsto> v)])
       (t\<lparr>incoming := pending, nreads := nreads t + 1\<rparr>)"
  proof (cases "k = ''file''")
    case True
    with pls1(1) marker have "pls1 = pls @ [Map.empty]" "HasPrefix (data_line k v) ''file:''"
      by simp_all
    with data_line_parses [OF k(1), of v] show ?thesis
      by (simp add: readPlaylist_loop_step del: fun_upd_apply)
  next
    case False
    with pls1 marker have "pls1 = pls" "pls \<noteq> []" "\<not> HasPrefix (data_line k v) ''file:''"
      by simp_all
    with data_line_parses [OF k(1), of v] show ?thesis
      by (simp add: readPlaylist_loop_step del: fun_upd_apply)
  qed
  then show ?thesis by (simp only: update_last [OF pls1(2)])
qed

lemma readPlaylist_loop_records:
  "\<forall>(k, v)\<in>set kvs. Index k '': '' < 0 \<and> (k = ''file'' \<or> \<not> HasPrefix k ''file:'') \<Longrightarrow>
   spec_records pls kvs = Some recs \<Longrightarrow>
   readPlaylist_loop pls
     (t\<lparr>incoming := map (\<lambda>(k, v). Inr (data_line k v)) kvs @ Inr ''OK'' # rest\<rparr>) =
     (Ok recs, t\<lparr>incoming := rest, nreads := nreads t + length kvs + 1\<rparr>)"
proof (induction kvs arbitrary: pls t)
  case Nil
  then show ?case by (simp add: readPlaylist_loop_step)
next
  case (Cons kv kvs)
  obtain k v where kv: "kv = (k, v)" by (cases kv)
  define pls1 where "pls1 = (if k = ''file'' then pls @ [Map.empty] else pls)"
  let ?pls2 = "butlast pls1 @ [(last pls1)(k \<mapsto> v)]"
  from Cons.prems(1) kv have k: "Index k '': '' < 0" "k = ''file'' \<or> \<not> HasPrefix k ''file:''"
    and rest: "\<forall>(k, v)\<in>set kvs. Index k '': '' < 0 \<and> (k = ''file'' \<or> \<not> HasPrefix k ''file:'')"
    by auto
  from Cons.prems(2) kv have ne: "pls1 \<noteq> []" and sp: "spec_records ?pls2 kvs = Some recs"
    by (auto simp: Let_def pls1_def split: if_splits)
  have "readPlaylist_loop ?pls2
     ((t\<lparr>nreads := nreads t + 1\<rparr>)\<lparr>incoming := map (\<lambda>(k, v). Inr (data_line k v)) kvs @ Inr ''OK'' # rest\<rparr>) =
     (Ok recs, (t\<lparr>nreads := nreads t + 1\<rparr>)\<lparr>incoming := rest, nreads := nreads (t\<lparr>nreads := nreads t + 1\<rparr>) + length kvs + 1\<rparr>)"
    by (rule Cons.IH [OF rest sp])
  then show ?case
    by (simp add: kv readPlaylist_loop_data_line [OF k pls1_def ne])
qed

text \<open>
  C6, as the claim states it, fails: the code opens a record at every line that begins with
  \<open>file:\<close>, whatever its key. In the response \<open>file: a\<close>, \<open>file:x: y\<close>, \<open>OK\<close> the second
  line is a key/value line with the key \<open>file:x\<close>, which is not the marker key; the claim
  assigns it to the record of \<open>a\<close> (as \<open>spec_records\<close> does), and the code gives it a record
  of its own.
\<close>

theorem marker_is_a_prefix_counterexample:
  "fst (readPlaylist (peer_sends [''file: a'', ''file:x: y'', ''OK''])) =
     Ok [[''file'' \<mapsto> ''a''], [''file:x'' \<mapsto> ''y'']] \<and>
   spec_records [] [(''file'', ''a''), (''file:x'', ''y'')] =
     Some [[''file'' \<mapsto> ''a'', ''file:x'' \<mapsto> ''y'']] \<and>
   [[''file'' \<mapsto> ''a''], [''file:x'' \<mapsto> ''y'']] \<noteq> [[''file'' \<mapsto> ''a'', ''file:x'' \<mapsto> ''y'']]"
  by (simp add: run)

text \<open>
  C6, amended. On a response in which no key other than \<open>file\<close> begins with \<open>file:\<close>,
  record-sequence decode starts a new Attribute Set whenever a line's key is the marker key
  \<open>file\<close> and assigns all following key/value lines to that record until the next marker or
  the terminator: \<^verbatim>\<open>readPlaylist\<close> returns what the specification's reading \<open>spec_records\<close>
  gives for the keys and values of the lines, and stops behind the terminator. In particular,
  the lines \<open>file: x\<close>, \<open>title: Song A\<close>, \<open>file: y\<close>, \<open>title: Song B\<close>, \<open>OK\<close> decode to two
  records, in this order.
\<close>

theorem records_follow_markers:
  assumes "\<forall>(k, v)\<in>set kvs. Index k '': '' < 0 \<and> (k = ''file'' \<or> \<not> HasPrefix k ''file:'')"
    and "spec_records [] kvs = Some recs"
  shows "readPlaylist (t\<lparr>incoming := map (\<lambda>(k, v). Inr (data_line k v)) kvs @ Inr ''OK'' # rest\<rparr>) =
      (Ok recs, t\<lparr>incoming := rest, nreads := nreads t + length kvs + 1\<rparr>) \<and>
    fst (readPlaylist
      (peer_sends [''file: x'', ''title: Song A'', ''file: y'', ''title: Song B'', ''OK''])) =
      Ok [[''file'' \<mapsto> ''x'', ''title'' \<mapsto> ''Song A''],
          [''file'' \<mapsto> ''y'', ''title'' \<mapsto> ''Song B'']]"
proof
  show "readPlaylist (t\<lparr>incoming := map (\<lambda>(k, v). Inr (data_line k v)) kvs @ Inr ''OK'' # rest\<rparr>) =
      (Ok recs, t\<lparr>incoming := rest, nreads := nreads t + length kvs + 1\<rparr>)"
    unfolding readPlaylist_def by (rule readPlaylist_loop_records [OF assms])
  show "fst (readPlaylist
      (peer_sends [''file: x'', ''title: Song A'', ''file: y'', ''title: Song B'', ''OK''])) =
      Ok [[''file'' \<mapsto> ''x'', ''title'' \<mapsto> ''Song A''],
          [''file'' \<mapsto> ''y'', ''title'' \<mapsto> ''Song B'']]"
    by (simp add: run)
qed

theorem records_follow_markers_witness:
  "readPlaylist
     (peer_sends [''file: x'', ''title: Song A'', ''file: y'', ''title: Song B'', ''OK'',
        ''more'']) =
     (Ok [[''file'' \<mapsto> ''x'', ''title'' \<mapsto> ''Song A''],
          [''file'' \<mapsto> ''y'', ''title'' \<mapsto> ''Song B'']],
      (peer_sends [''more''])\<lparr>nreads := 5\<rparr>)"
  using records_follow_markers [where t = "peer_sends []" and rest = "[Inr ''more'']"
      and kvs = "[(''file'', ''x''), (''title'', ''Song A''), (''file'', ''y''),
                  (''title'', ''Song B'')]"
      and recs = "[[''file'' \<mapsto> ''x'', ''title'' \<mapsto> ''Song A''],
          [''file'' \<mapsto> ''y'', ''title'' \<mapsto> ''Song B'']]"]
  by (simp add: peer_sends_def HasPrefix_def data_line_def)

section \<open>The greeting\<close>

text \<open>
  C9. \<^verbatim>\<open>Dial\<close> takes \<^verbatim>\<open>line[0:6]\<close> of the greeting without looking at its length: for
  every greeting line shorter than six characters, the empty line among them, the slice is
  out of range and \<^verbatim>\<open>Dial\<close> panics instead of returning the handshake error
  \<open>no greeting\<close>; only a line of six characters or more is compared with the banner.
\<close>

theorem Dial_short_greeting_panics:
  "(length line < 6 \<longrightarrow>
      Dial (Inr (t\<lparr>incoming := Inr line # rest\<rparr>)) = Panic SliceBoundsOutOfRange) \<and>
   (6 \<le> length line \<longrightarrow>
      Dial (Inr (t\<lparr>incoming := Inr line # rest\<rparr>)) =
        (if take 6 line = ''OK MPD''
         then Ok \<lparr>text = Ref, net = t\<lparr>incoming := rest, nreads := nreads t + 1\<rparr>\<rparr>
         else Err (ProtocolError ''no greeting'')))"
  by (simp add: Dial_def ReadLine_def substr_def)

theorem Dial_short_greeting_panics_witness:
  "Dial (Inr (peer_sends [''''])) = Panic SliceBoundsOutOfRange \<and>
   Dial (Inr (peer_sends [''OK''])) = Panic SliceBoundsOutOfRange \<and>
   Dial (Inr (peer_sends [''hello, world''])) = Err (ProtocolError ''no greeting'') \<and>
   Dial (Inr (peer_sends [''OK MPD 0.16.0''])) = Ok (connected ((peer_sends [])\<lparr>nreads := 1\<rparr>))"
  using Dial_short_greeting_panics [where line = "''''" and t = "peer_sends []" and rest = "[]"]
    Dial_short_greeting_panics [where line = "''OK''" and t = "peer_sends []" and rest = "[]"]
    Dial_short_greeting_panics [where line = "''hello, world''" and t = "peer_sends []" and rest = "[]"]
    Dial_short_greeting_panics [where line = "''OK MPD 0.16.0''" and t = "peer_sends []" and rest = "[]"]
  by (simp add: peer_sends_def connected_def)

section \<open>A closed client\<close>

lemma command_nil: "text c = nil \<Longrightarrow> command format args body c = (Panic NilDereference, c)"
  by (simp add: command_def)

text \<open>
  C2, as the claim states it, fails: no operation checks for a closed session, and there is
  no closed-session error. After \<^verbatim>\<open>Close\<close> the pointer \<open>text\<close> is \<open>nil\<close>; \<^verbatim>\<open>Status\<close>
  calls \<^verbatim>\<open>Cmd\<close> through it and panics, and \<^verbatim>\<open>PlaylistInfo(-1, 3)\<close> returns its
  validation error as on an open session.
\<close>

theorem closed_session_counterexample:
  "Status (snd (Close (connected (peer_sends [''volume: 50'', ''OK''])))) =
     (Panic NilDereference, snd (Close (connected (peer_sends [''volume: 50'', ''OK''])))) \<and>
   fst (PlaylistInfo (\<lambda>n. n) (- 1) 3 (snd (Close (connected (peer_sends []))))) =
     Err (NewError ''negative start index'')"
  by (simp add: Close_def connected_def peer_sends_def PrintfLine_def conn_Close_def Status_def
      command_def PlaylistInfo_def)

text \<open>
  C2, amended. After \<^verbatim>\<open>Close\<close> the client's pointer to the connection is \<open>nil\<close>. A
  further \<^verbatim>\<open>Close\<close> does nothing and returns no error; \<^verbatim>\<open>PlaylistInfo\<close> with
  \<open>start < 0 \<le> end\<close> and \<^verbatim>\<open>Delete\<close> with \<open>start < 0\<close> return the error
  \<open>negative start index\<close>; every other operation panics on the \<open>nil\<close> pointer and returns
  no error value. None of them touches the transport: client and connection are as
  \<^verbatim>\<open>Close\<close> left them.
\<close>

theorem operations_after_Close:
  "text (snd (Close c)) = nil \<and>
   Close (snd (Close c)) = (None, snd (Close c)) \<and>
   Status (snd (Close c)) = (Panic NilDereference, snd (Close c)) \<and>
   CurrentSong (snd (Close c)) = (Panic NilDereference, snd (Close c)) \<and>
   Ping (snd (Close c)) = (Panic NilDereference, snd (Close c)) \<and>
   Next (snd (Close c)) = (Panic NilDereference, snd (Close c)) \<and>
   Pause pause (snd (Close c)) = (Panic NilDereference, snd (Close c)) \<and>
   Play pos (snd (Close c)) = (Panic NilDereference, snd (Close c)) \<and>
   PlayId ident (snd (Close c)) = (Panic NilDereference, snd (Close c)) \<and>
   Previous (snd (Close c)) = (Panic NilDereference, snd (Close c)) \<and>
   Seek pos time (snd (Close c)) = (Panic NilDereference, snd (Close c)) \<and>
   SeekId ident time (snd (Close c)) = (Panic NilDereference, snd (Close c)) \<and>
   Stop (snd (Close c)) = (Panic NilDereference, snd (Close c)) \<and>
   PlaylistInfo runtime_cap start end (snd (Close c)) =
     (if start < 0 \<and> 0 \<le> end then Err (NewError ''negative start index'')
      else Panic NilDereference, snd (Close c)) \<and>
   Delete start end (snd (Close c)) =
     (if start < 0 then Err (NewError ''negative start index'') else Panic NilDereference,
      snd (Close c)) \<and>
   DeleteId ident (snd (Close c)) = (Panic NilDereference, snd (Close c)) \<and>
   Add uri (snd (Close c)) = (Panic NilDereference, snd (Close c)) \<and>
   AddId atoi uri pos (snd (Close c)) = (Panic NilDereference, snd (Close c)) \<and>
   Clear (snd (Close c)) = (Panic NilDereference, snd (Close c))"
proof -
  have n: "text (snd (Close c)) = nil"
    by (simp add: Close_def Let_def split: prod.splits)
  show ?thesis
    by (simp add: n command_nil [OF n] Close_def [of "snd (Close c)"] Status_def CurrentSong_def
        okCmd_def Ping_def Next_def Pause_def Play_def PlayId_def Previous_def Seek_def
        SeekId_def Stop_def PlaylistInfo_def Delete_def DeleteId_def Add_def AddId_def Clear_def)
qed

theorem operations_after_Close_witness:
  "Ping (snd (Close (connected (peer_sends [''OK''])))) =
     (Panic NilDereference,
      \<lparr>text = nil, net = (peer_sends [''OK''])\<lparr>written := [(''close'', [])], closed := True\<rparr>\<rparr>) \<and>
   Delete (- 1) 2 (snd (Close (connected (peer_sends [''OK''])))) =
     (Err (NewError ''negative start index''),
      \<lparr>text = nil, net = (peer_sends [''OK''])\<lparr>written := [(''close'', [])], closed := True\<rparr>\<rparr>)"
  using operations_after_Close [where c = "connected (peer_sends [''OK''])" and start = "- 1"]
  by (simp add: Close_def connected_def peer_sends_def PrintfLine_def conn_Close_def)

section \<open>What a reader does to the connection\<close>

text \<open>
  A reader's result, the lines it leaves and the number of its reads depend on the pending
  lines alone, and it changes nothing else of the connection.
\<close>

lemma pending_head: "incoming t = x # xs \<Longrightarrow> t\<lparr>incoming := x # xs\<rparr> = t"
  by (cases t) simp

lemma readAttrs_loop_frame:
  "\<exists>r i n. \<forall>t. incoming t = xs \<longrightarrow>
     readAttrs_loop attrs t = (r, t\<lparr>incoming := i, nreads := nreads t + n\<rparr>)"
proof (induction xs arbitrary: attrs)
  case Nil
  have "\<forall>t. incoming t = [] \<longrightarrow>
      readAttrs_loop attrs t = (Err EOF, t\<lparr>incoming := [], nreads := nreads t + 1\<rparr>)"
    by (subst readAttrs_loop.simps) (simp add: ReadLine_def)
  then show ?case by blast
next
  case (Cons x xs)
  let ?a = "\<lambda>line. attrs(take (nat (Index line '': '')) line \<mapsto>
      drop (nat (Index line '': '') + 2) line)"
  have step: "readAttrs_loop attrs t =
     (let t' = t\<lparr>incoming := xs, nreads := nreads t + 1\<rparr> in
      case x of
        Inl err \<Rightarrow> (Err err, t')
      | Inr line \<Rightarrow>
          if line = ''OK'' then (Ok attrs, t')
          else if Index line '': '' < 0
               then (Err (ProtocolError (''can't parse line: '' @ line)), t')
               else readAttrs_loop (?a line) t')"
    if "incoming t = x # xs" for t
    using readAttrs_loop_step [where attrs = attrs and t = t and x = x and rest = xs] pending_head [OF that] by simp
  show ?case
  proof (cases x)
    case (Inl err)
    with step have "\<forall>t. incoming t = x # xs \<longrightarrow>
      readAttrs_loop attrs t = (Err err, t\<lparr>incoming := xs, nreads := nreads t + 1\<rparr>)"
      by simp
    then show ?thesis by blast
  next
    case (Inr line)
    show ?thesis
    proof (cases "line = ''OK'' \<or> Index line '': '' < 0")
      case True
      with step Inr have "\<forall>t. incoming t = x # xs \<longrightarrow>
        readAttrs_loop attrs t =
          (if line = ''OK'' then Ok attrs
           else Err (ProtocolError (''can't parse line: '' @ line)),
           t\<lparr>incoming := xs, nreads := nreads t + 1\<rparr>)"
        by auto
      then show ?thesis by blast
    next
      case False
      from Cons.IH [of "?a line"] obtain r i n where
        ih: "\<And>t. incoming t = xs \<Longrightarrow>
          readAttrs_loop (?a line) t = (r, t\<lparr>incoming := i, nreads := nreads t + n\<rparr>)"
        by blast
      have "\<forall>t. incoming t = x # xs \<longrightarrow>
        readAttrs_loop attrs t = (r, t\<lparr>incoming := i, nreads := nreads t + (n + 1)\<rparr>)"
      proof (intro allI impI)
        fix t :: conn
        assume t: "incoming t = x # xs"
        have "readAttrs_loop attrs t =
            readAttrs_loop (?a line) (t\<lparr>incoming := xs, nreads := nreads t + 1\<rparr>)"
          using step [OF t] Inr False by (simp del: fun_upd_apply)
        also have "\<dots> = (r, (t\<lparr>incoming := xs, nreads := nreads t + 1\<rparr>)
            \<lparr>incoming := i, nreads := nreads (t\<lparr>incoming := xs, nreads := nreads t + 1\<rparr>) + n\<rparr>)"
          by (rule ih) simp
        finally show "readAttrs_loop attrs t = (r, t\<lparr>incoming := i, nreads := nreads t + (n + 1)\<rparr>)"
          by (simp add: add.commute)
      qed
      then show ?thesis by blast
    qed
  qed
qed


lemma readPlaylist_loop_frame:
  "\<exists>r i n. \<forall>t. incoming t = xs \<longrightarrow>
     readPlaylist_loop pls t = (r, t\<lparr>incoming := i, nreads := nreads t + n\<rparr>)"
proof (induction xs arbitrary: pls)
  case Nil
  have "\<forall>t. incoming t = [] \<longrightarrow>
      readPlaylist_loop pls t = (Err EOF, t\<lparr>incoming := [], nreads := nreads t + 1\<rparr>)"
    by (subst readPlaylist_loop.simps) (simp add: ReadLine_def)
  then show ?case by blast
next
  case (Cons x xs)
  let ?p1 = "\<lambda>line. if HasPrefix line ''file:'' then pls @ [Map.empty] else pls"
  let ?p2 = "\<lambda>line. (?p1 line)[length (?p1 line) - 1 :=
      ((?p1 line) ! (length (?p1 line) - 1))
        (take (nat (Index line '': '')) line \<mapsto> drop (nat (Index line '': '') + 2) line)]"
  have step: "readPlaylist_loop pls t =
     (let t' = t\<lparr>incoming := xs, nreads := nreads t + 1\<rparr> in
      case x of
        Inl err \<Rightarrow> (Err err, t')
      | Inr line \<Rightarrow>
          if line = ''OK'' then (Ok pls, t')
          else (let pls1 = (if HasPrefix line ''file:'' then pls @ [Map.empty] else pls) in
                if pls1 = [] then (Err (ProtocolError (''unexpected: '' @ line)), t')
                else if Index line '': '' < 0
                     then (Err (ProtocolError (''can't parse line: '' @ line)), t')
                     else readPlaylist_loop
                            (pls1[length pls1 - 1 :=
                               (pls1 ! (length pls1 - 1))
                                 (take (nat (Index line '': '')) line \<mapsto>
                                  drop (nat (Index line '': '') + 2) line)]) t'))"
    if "incoming t = x # xs" for t
    using readPlaylist_loop_step [where pls = pls and t = t and x = x and rest = xs]
      pending_head [OF that]
    by simp
  show ?case
  proof (cases x)
    case (Inl err)
    with step have "\<forall>t. incoming t = x # xs \<longrightarrow>
      readPlaylist_loop pls t = (Err err, t\<lparr>incoming := xs, nreads := nreads t + 1\<rparr>)"
      by simp
    then show ?thesis by blast
  next
    case (Inr line)
    show ?thesis
    proof (cases "line = ''OK'' \<or> ?p1 line = [] \<or> Index line '': '' < 0")
      case True
      with step Inr have "\<forall>t. incoming t = x # xs \<longrightarrow>
        readPlaylist_loop pls t =
          (if line = ''OK'' then Ok pls
           else if ?p1 line = [] then Err (ProtocolError (''unexpected: '' @ line))
           else Err (ProtocolError (''can't parse line: '' @ line)),
           t\<lparr>incoming := xs, nreads := nreads t + 1\<rparr>)"
        by (auto simp: Let_def)
      then show ?thesis by blast
    next
      case False
      from Cons.IH [of "?p2 line"] obtain r i n where
        ih: "\<And>t. incoming t = xs \<Longrightarrow>
          readPlaylist_loop (?p2 line) t = (r, t\<lparr>incoming := i, nreads := nreads t + n\<rparr>)"
        by blast
      have "\<forall>t. incoming t = x # xs \<longrightarrow>
        readPlaylist_loop pls t = (r, t\<lparr>incoming := i, nreads := nreads t + (n + 1)\<rparr>)"
      proof (intro allI impI)
        fix t :: conn
        assume t: "incoming t = x # xs"
        have "readPlaylist_loop pls t =
            readPlaylist_loop (?p2 line) (t\<lparr>incoming := xs, nreads := nreads t + 1\<rparr>)"
          using step [OF t] Inr False by (simp del: fun_upd_apply)
        also have "\<dots> = (r, (t\<lparr>incoming := xs, nreads := nreads t + 1\<rparr>)
            \<lparr>incoming := i, nreads := nreads (t\<lparr>incoming := xs, nreads := nreads t + 1\<rparr>) + n\<rparr>)"
          by (rule ih) simp
        finally show "readPlaylist_loop pls t = (r, t\<lparr>incoming := i, nreads := nreads t + (n + 1)\<rparr>)"
          by (simp add: add.commute)
      qed
      then show ?thesis by blast
    qed
  qed
qed

section \<open>Commands on a connected client\<close>

text \<open>
  On a connected client whose writes succeed and that has no response outstanding, an
  operation writes its command, asks for the response under the command's id, runs its
  reader on the pending lines and passes the turn on.
\<close>

lemma command_ready:
  assumes c: "text c = Ref" "wresults (net c) = []" "resp_id (net c) = next_id (net c)"
    and body: "\<And>xs. \<exists>r i n. \<forall>t. incoming t = xs \<longrightarrow>
      body t = (r, t\<lparr>incoming := i, nreads := nreads t + n\<rparr>)"
  shows "command format args body c =
     (fst (body (net c)),
      c\<lparr>net := (snd (body (net c)))
         \<lparr>written := written (net c) @ [(format, args)],
          awaited := awaited (net c) @ [next_id (net c)],
          next_id := next_id (net c) + 1,
          resp_id := next_id (net c) + 1\<rparr>\<rparr>)"
proof -
  from body [of "incoming (net c)"] obtain r i n where
    b: "\<And>t. incoming t = incoming (net c) \<Longrightarrow>
      body t = (r, t\<lparr>incoming := i, nreads := nreads t + n\<rparr>)"
    by blast
  let ?t1 = "(net c)\<lparr>next_id := next_id (net c) + 1,
      written := written (net c) @ [(format, args)],
      awaited := awaited (net c) @ [next_id (net c)]\<rparr>"
  have b0: "body (net c) = (r, (net c)\<lparr>incoming := i, nreads := nreads (net c) + n\<rparr>)"
    by (rule b) simp
  have b1: "body ?t1 = (r, ?t1\<lparr>incoming := i, nreads := nreads ?t1 + n\<rparr>)"
    by (rule b) simp
  show ?thesis
    using c b0 b1
    by (cases "net c")
       (simp add: command_def Cmd_def PrintfLine_def in_response_def StartResponse_def
          EndResponse_def b0)
qed


lemma readAttrs_frame:
  "\<exists>r i n. \<forall>t. incoming t = xs \<longrightarrow>
     readAttrs t = (r, t\<lparr>incoming := i, nreads := nreads t + n\<rparr>)"
  unfolding readAttrs_def by (rule readAttrs_loop_frame)

lemma readPlaylist_frame:
  "\<exists>r i n. \<forall>t. incoming t = xs \<longrightarrow>
     readPlaylist t = (r, t\<lparr>incoming := i, nreads := nreads t + n\<rparr>)"
  unfolding readPlaylist_def by (rule readPlaylist_loop_frame)

lemma then_frame:
  assumes "\<And>xs. \<exists>r i n. \<forall>t. incoming t = xs \<longrightarrow>
      body t = (r, t\<lparr>incoming := i, nreads := nreads t + n\<rparr>)"
  shows "\<exists>r i n. \<forall>t. incoming t = xs \<longrightarrow>
      (let (r, t') = body t in (g r, t')) = (r, t\<lparr>incoming := i, nreads := nreads t + n\<rparr>)"
proof -
  from assms [of xs] obtain r i n where
    "\<forall>t. incoming t = xs \<longrightarrow> body t = (r, t\<lparr>incoming := i, nreads := nreads t + n\<rparr>)"
    by blast
  then have "\<forall>t. incoming t = xs \<longrightarrow>
      (let (r, t') = body t in (g r, t')) = (g r, t\<lparr>incoming := i, nreads := nreads t + n\<rparr>)"
    by simp
  then show ?thesis by blast
qed

lemma command_ready_result:
  assumes "text c = Ref" "wresults (net c) = []" "resp_id (net c) = next_id (net c)"
    and "\<And>xs. \<exists>r i n. \<forall>t. incoming t = xs \<longrightarrow>
      body t = (r, t\<lparr>incoming := i, nreads := nreads t + n\<rparr>)"
  shows "fst (command format args body c) = fst (body (net c))"
    and "written (net (snd (command format args body c))) = written (net c) @ [(format, args)]"
  by (simp_all add: command_ready [OF assms])

lemmas run_client = PlaylistInfo_def command_def Cmd_def PrintfLine_def in_response_def
  StartResponse_def EndResponse_def PlaylistInfo_slice_def and_then_def reslice_def cap_of_def
  connected_def

section \<open>The playlist listing\<close>

lemma PlaylistInfo_single:
  assumes "text c = Ref" "wresults (net c) = []" "resp_id (net c) = next_id (net c)"
    and "0 \<le> start" "end' < 0"
  shows "written (net (snd (PlaylistInfo runtime_cap start end' c))) =
      written (net c) @ [(''playlistinfo %d'', [I start])]"
    and "fst (PlaylistInfo runtime_cap start end' c) = fst (readPlaylist (net c))"
  using assms(4,5) command_ready_result [OF assms(1-3) readPlaylist_frame]
  by (simp_all add: PlaylistInfo_def)

lemma PlaylistInfo_full:
  assumes "text c = Ref" "wresults (net c) = []" "resp_id (net c) = next_id (net c)"
    and "(0 \<le> start \<and> 0 \<le> end') \<or> (start < 0 \<and> end' < 0)"
  shows "written (net (snd (PlaylistInfo runtime_cap start end' c))) =
      written (net c) @ [(''playlistinfo'', [])]"
    and "fst (PlaylistInfo runtime_cap start end' c) =
      PlaylistInfo_slice runtime_cap start end' (fst (readPlaylist (net c)))"
proof -
  let ?body = "\<lambda>t. let (r, t') = readPlaylist t
                  in (PlaylistInfo_slice runtime_cap start end' r, t')"
  have fr: "\<exists>r i n. \<forall>t. incoming t = xs \<longrightarrow>
      ?body t = (r, t\<lparr>incoming := i, nreads := nreads t + n\<rparr>)" for xs
    by (rule then_frame [OF readPlaylist_frame])
  have "PlaylistInfo runtime_cap start end' c = command ''playlistinfo'' [] ?body c"
    using assms(4) by (cases "start < 0"; cases "end' < 0"; simp add: PlaylistInfo_def)
  then show "written (net (snd (PlaylistInfo runtime_cap start end' c))) =
      written (net c) @ [(''playlistinfo'', [])]"
    and "fst (PlaylistInfo runtime_cap start end' c) =
      PlaylistInfo_slice runtime_cap start end' (fst (readPlaylist (net c)))"
    using command_ready_result [OF assms(1-3) fr, of "''playlistinfo''" "[]"]
    by (simp_all add: split_beta)
qed

lemma PlaylistInfo_slice_in_range:
  "0 \<le> start \<Longrightarrow> start \<le> end' \<Longrightarrow> end' \<le> int (length pls) \<Longrightarrow>
   PlaylistInfo_slice runtime_cap start end' (Ok pls) =
     Ok (take (nat end' - nat start) (drop (nat start) pls))"
  by (cases "pls = []") (auto simp: PlaylistInfo_slice_def and_then_def reslice_def cap_of_def)

lemma PlaylistInfo_slice_unsliced:
  "start < 0 \<or> end' < 0 \<Longrightarrow> PlaylistInfo_slice runtime_cap start end' r = r"
  by (cases r) (auto simp: PlaylistInfo_slice_def and_then_def)

text \<open>
  In the examples that follow the capacity parameter is the constant 8. It is looked at
  only for the listing of five records, whose slice \<^verbatim>\<open>append\<close> has grown to hold eight; the
  examples with \<open>start > end\<close>, with an empty listing or with \<open>end\<close> up to the number of
  records come out the same for every capacity.
\<close>

text \<open>
  C3, as the claim states it, fails for two non-negative indices that are not a range of the
  decoded records: nothing compares them with the listing, and the slice expression
  \<^verbatim>\<open>pls[start:end]\<close> panics. \<^verbatim>\<open>PlaylistInfo(3, 1)\<close> on a listing of five records and
  \<^verbatim>\<open>PlaylistInfo(0, 1)\<close> on an empty listing return no records at all.
\<close>

theorem PlaylistInfo_not_a_range_counterexample:
  "fst (PlaylistInfo (\<lambda>n. 8) 3 1 (connected (peer_sends [''file: a'', ''file: b'', ''file: c'', ''file: d'', ''file: e'', ''OK'']))) =
     Panic SliceBoundsOutOfRange \<and>
   fst (readPlaylist (peer_sends [''file: a'', ''file: b'', ''file: c'', ''file: d'', ''file: e'', ''OK''])) =
     Ok [[''file'' \<mapsto> ''a''], [''file'' \<mapsto> ''b''], [''file'' \<mapsto> ''c''],
          [''file'' \<mapsto> ''d''], [''file'' \<mapsto> ''e'']] \<and>
   fst (PlaylistInfo (\<lambda>n. 8) 0 1 (connected (peer_sends [''OK'']))) =
     Panic SliceBoundsOutOfRange \<and>
   fst (readPlaylist (peer_sends [''OK''])) = Ok []"
  by (simp add: run run_client)

text \<open>
  C3, amended. \<^verbatim>\<open>PlaylistInfo(start, end)\<close> has three selection modes and one rejected
  shape. With \<open>start < 0 \<le> end\<close> it returns the error \<open>negative start index\<close> and leaves
  client and connection untouched. On a connected client whose writes succeed and that has
  no response outstanding: with \<open>0 \<le> start\<close> and \<open>end < 0\<close> it writes the one command
  \<open>playlistinfo %d\<close> with \<open>start\<close> and returns what \<^verbatim>\<open>readPlaylist\<close> decodes; with both
  non-negative it writes \<open>playlistinfo\<close> and, when the decode succeeds and
  \<open>start \<le> end \<le> len(pls)\<close>, returns the records from \<open>start\<close> up to \<open>end\<close>, so the first
  two of five for \<open>(0, 2)\<close>; with both negative it writes \<open>playlistinfo\<close> and returns the
  decoded records unsliced.
\<close>

theorem PlaylistInfo_modes:
  "(start < 0 \<and> 0 \<le> end' \<longrightarrow>
      PlaylistInfo runtime_cap start end' c = (Err (NewError ''negative start index''), c)) \<and>
   (text c = Ref \<and> wresults (net c) = [] \<and> resp_id (net c) = next_id (net c) \<longrightarrow>
      (0 \<le> start \<and> end' < 0 \<longrightarrow>
         written (net (snd (PlaylistInfo runtime_cap start end' c))) =
           written (net c) @ [(''playlistinfo %d'', [I start])] \<and>
         fst (PlaylistInfo runtime_cap start end' c) = fst (readPlaylist (net c))) \<and>
      (0 \<le> start \<and> 0 \<le> end' \<longrightarrow>
         written (net (snd (PlaylistInfo runtime_cap start end' c))) =
           written (net c) @ [(''playlistinfo'', [])] \<and>
         fst (PlaylistInfo runtime_cap start end' c) =
           PlaylistInfo_slice runtime_cap start end' (fst (readPlaylist (net c))) \<and>
         (\<forall>pls. fst (readPlaylist (net c)) = Ok pls \<and> start \<le> end' \<and> end' \<le> int (length pls) \<longrightarrow>
            fst (PlaylistInfo runtime_cap start end' c) =
              Ok (take (nat end' - nat start) (drop (nat start) pls)))) \<and>
      (start < 0 \<and> end' < 0 \<longrightarrow>
         written (net (snd (PlaylistInfo runtime_cap start end' c))) =
           written (net c) @ [(''playlistinfo'', [])] \<and>
         fst (PlaylistInfo runtime_cap start end' c) = fst (readPlaylist (net c))))"
  using PlaylistInfo_single [of c start end' runtime_cap]
    PlaylistInfo_full [of c start end' runtime_cap]
    PlaylistInfo_slice_in_range [of start end' _ runtime_cap]
    PlaylistInfo_slice_unsliced [of start end' runtime_cap]
  by (auto simp: PlaylistInfo_def simp del: take_drop)

theorem PlaylistInfo_modes_witness:
  "PlaylistInfo (\<lambda>n. 8) (- 1) 3 (connected (peer_sends [])) =
     (Err (NewError ''negative start index''), connected (peer_sends [])) \<and>
   written (net (snd (PlaylistInfo (\<lambda>n. 8) 2 (- 1)
      (connected (peer_sends [''file: c'', ''OK''])))))
     = [(''playlistinfo %d'', [I 2])] \<and>
   fst (PlaylistInfo (\<lambda>n. 8) 2 (- 1) (connected (peer_sends [''file: c'', ''OK'']))) =
     Ok [[''file'' \<mapsto> ''c'']] \<and>
   written (net (snd (PlaylistInfo (\<lambda>n. 8) 0 2 (connected (peer_sends
      [''file: a'', ''file: b'', ''file: c'', ''file: d'', ''file: e'', ''OK'']))))) =
     [(''playlistinfo'', [])] \<and>
   fst (PlaylistInfo (\<lambda>n. 8) 0 2 (connected (peer_sends
      [''file: a'', ''file: b'', ''file: c'', ''file: d'', ''file: e'', ''OK'']))) =
     Ok [[''file'' \<mapsto> ''a''], [''file'' \<mapsto> ''b'']] \<and>
   fst (PlaylistInfo (\<lambda>n. 8) (- 1) (- 1) (connected (peer_sends
      [''file: a'', ''file: b'', ''file: c'', ''file: d'', ''file: e'', ''OK'']))) =
     Ok [[''file'' \<mapsto> ''a''], [''file'' \<mapsto> ''b''], [''file'' \<mapsto> ''c''],
          [''file'' \<mapsto> ''d''], [''file'' \<mapsto> ''e'']]"
  using PlaylistInfo_modes [where runtime_cap = "\<lambda>n. 8" and start = "- 1" and end' = 3
      and c = "connected (peer_sends [])"]
    PlaylistInfo_modes [where runtime_cap = "\<lambda>n. 8" and start = 2 and end' = "- 1"
      and c = "connected (peer_sends [''file: c'', ''OK''])"]
    PlaylistInfo_modes [where runtime_cap = "\<lambda>n. 8" and start = 0 and end' = 2
      and c = "connected (peer_sends
        [''file: a'', ''file: b'', ''file: c'', ''file: d'', ''file: e'', ''OK''])"]
    PlaylistInfo_modes [where runtime_cap = "\<lambda>n. 8" and start = "- 1" and end' = "- 1"
      and c = "connected (peer_sends
        [''file: a'', ''file: b'', ''file: c'', ''file: d'', ''file: e'', ''OK''])"]
  by (simp add: run run_client)

text \<open>
  C10, as the claim states it, fails in one point: Go checks a slice expression on a slice
  against its capacity, not its length. \<^verbatim>\<open>append\<close> has grown the five records of this
  listing into a backing array of eight, so \<^verbatim>\<open>pls[0:8]\<close> is in range although \<open>end\<close>
  exceeds the number of records: the call returns eight elements, the five records and three
  \<open>nil\<close> Attribute Sets.
\<close>

theorem slice_within_capacity_counterexample:
  "fst (PlaylistInfo (\<lambda>n. 8) 0 8 (connected (peer_sends [''file: a'', ''file: b'', ''file: c'', ''file: d'', ''file: e'', ''OK'']))) =
     Ok [[''file'' \<mapsto> ''a''], [''file'' \<mapsto> ''b''], [''file'' \<mapsto> ''c''],
         [''file'' \<mapsto> ''d''], [''file'' \<mapsto> ''e''], Map.empty, Map.empty, Map.empty] \<and>
   fst (readPlaylist (peer_sends [''file: a'', ''file: b'', ''file: c'', ''file: d'', ''file: e'', ''OK''])) =
     Ok [[''file'' \<mapsto> ''a''], [''file'' \<mapsto> ''b''], [''file'' \<mapsto> ''c''],
          [''file'' \<mapsto> ''d''], [''file'' \<mapsto> ''e'']]"
  by (simp add: run run_client numeral_3_eq_3)

text \<open>
  C10, amended. In \<^verbatim>\<open>PlaylistInfo\<close> with \<open>start \<ge> 0\<close> and \<open>end \<ge> 0\<close> the slice
  \<^verbatim>\<open>pls[start:end]\<close> is taken with no check against the decoded records. For every
  successfully decoded full listing where \<open>end\<close> exceeds the capacity of the decoded slice,
  which is never less than the number of records and is 0 for an empty listing, or where
  \<open>start > end\<close>, the slice is out of range and the operation panics instead of returning
  an error. With \<open>start \<le> end\<close> up to the capacity it returns normally, the records padded
  with \<open>nil\<close> Attribute Sets beyond their number; with \<open>start \<le> end \<le> len(pls)\<close> these are
  the records from \<open>start\<close> up to \<open>end\<close>.
\<close>

theorem PlaylistInfo_slice_unchecked:
  assumes "text c = Ref" "wresults (net c) = []" "resp_id (net c) = next_id (net c)"
    and "0 \<le> start" "0 \<le> end'" "fst (readPlaylist (net c)) = Ok pls"
  shows "length pls \<le> cap_of runtime_cap pls \<and>
    (end' < start \<or> int (cap_of runtime_cap pls) < end' \<longrightarrow>
       fst (PlaylistInfo runtime_cap start end' c) = Panic SliceBoundsOutOfRange) \<and>
    (start \<le> end' \<and> end' \<le> int (cap_of runtime_cap pls) \<longrightarrow>
       fst (PlaylistInfo runtime_cap start end' c) =
         Ok (take (nat end' - nat start) (drop (nat start)
               (pls @ replicate (cap_of runtime_cap pls - length pls) Map.empty)))) \<and>
    (start \<le> end' \<and> end' \<le> int (length pls) \<longrightarrow>
       fst (PlaylistInfo runtime_cap start end' c) =
         Ok (take (nat end' - nat start) (drop (nat start) pls)))"
proof -
  have "fst (PlaylistInfo runtime_cap start end' c) =
      PlaylistInfo_slice runtime_cap start end' (Ok pls)"
    using PlaylistInfo_full(2) [OF assms(1-3), of start end' runtime_cap] assms(4-6) by simp
  moreover have "length pls \<le> cap_of runtime_cap pls"
    by (simp add: cap_of_def)
  ultimately show ?thesis
    using assms(4,5) PlaylistInfo_slice_in_range [of start end' pls runtime_cap]
    by (auto simp: PlaylistInfo_slice_def and_then_def reslice_def simp del: take_drop)
qed

theorem PlaylistInfo_slice_unchecked_witness:
  "fst (PlaylistInfo (\<lambda>n. 8) 3 1 (connected (peer_sends [''file: a'', ''file: b'', ''file: c'', ''file: d'', ''file: e'', ''OK'']))) =
     Panic SliceBoundsOutOfRange \<and>
   fst (PlaylistInfo (\<lambda>n. 8) 0 1 (connected (peer_sends [''OK'']))) =
     Panic SliceBoundsOutOfRange \<and>
   fst (PlaylistInfo (\<lambda>n. 8) 1 3 (connected (peer_sends [''file: a'', ''file: b'', ''file: c'', ''file: d'', ''file: e'', ''OK'']))) =
     Ok [[''file'' \<mapsto> ''b''], [''file'' \<mapsto> ''c'']]"
  using PlaylistInfo_slice_unchecked [where runtime_cap = "\<lambda>n. 8" and start = 3 and end' = 1
      and c = "connected (peer_sends [''file: a'', ''file: b'', ''file: c'', ''file: d'', ''file: e'', ''OK''])"
      and pls = "[[''file'' \<mapsto> ''a''], [''file'' \<mapsto> ''b''], [''file'' \<mapsto> ''c''],
          [''file'' \<mapsto> ''d''], [''file'' \<mapsto> ''e'']]"]
    PlaylistInfo_slice_unchecked [where runtime_cap = "\<lambda>n. 8" and start = 0 and end' = 1
      and c = "connected (peer_sends [''OK''])" and pls = "[]"]
    PlaylistInfo_slice_unchecked [where runtime_cap = "\<lambda>n. 8" and start = 1 and end' = 3
      and c = "connected (peer_sends [''file: a'', ''file: b'', ''file: c'', ''file: d'', ''file: e'', ''OK''])"
      and pls = "[[''file'' \<mapsto> ''a''], [''file'' \<mapsto> ''b''], [''file'' \<mapsto> ''c''],
          [''file'' \<mapsto> ''d''], [''file'' \<mapsto> ''e'']]"]
  by (simp add: run run_client)

section \<open>Adding a song\<close>

text \<open>
  \<^verbatim>\<open>AddId\<close> on a connected client whose writes succeed: the commands it has written, the
  id it asks the response for, and its result when that id has the turn.
\<close>

lemma AddId_connected:
  assumes c: "text c = Ref" "wresults (net c) = []"
  shows "AddId atoi uri pos c =
     (let n = next_id (net c) + (if 0 \<le> pos then 1 else 0);
          w = written (net c)
                @ (if 0 \<le> pos then [(''addid %q %d'', [S uri, I pos])] else [])
                @ [(''addid %q'', [S uri])]
      in if resp_id (net c) \<noteq> n
         then (Blocked, c\<lparr>net := (net c)\<lparr>written := w, awaited := awaited (net c) @ [n],
                 next_id := n + 1\<rparr>\<rparr>)
         else (AddId_result atoi (fst (readAttrs (net c))),
               c\<lparr>net := (snd (readAttrs (net c)))\<lparr>written := w,
                 awaited := awaited (net c) @ [n], next_id := n + 1, resp_id := n + 1\<rparr>\<rparr>))"
proof -
  from readAttrs_frame [of "incoming (net c)"] obtain r i k where
    b: "\<And>t. incoming t = incoming (net c) \<Longrightarrow>
      readAttrs t = (r, t\<lparr>incoming := i, nreads := nreads t + k\<rparr>)"
    by blast
  have b0: "readAttrs (net c) = (r, (net c)\<lparr>incoming := i, nreads := nreads (net c) + k\<rparr>)"
    by (rule b) simp
  show ?thesis
  proof (cases "0 \<le> pos")
    case True
    let ?t1 = "(net c)\<lparr>written := written (net c) @
        [(''addid %q %d'', [S uri, I pos]), (''addid %q'', [S uri])],
      awaited := awaited (net c) @ [next_id (net c) + 1], next_id := next_id (net c) + 2\<rparr>"
    have b1: "readAttrs ?t1 = (r, ?t1\<lparr>incoming := i, nreads := nreads ?t1 + k\<rparr>)"
      by (rule b) simp
    show ?thesis
      using c b0 b1 True
      by (cases "net c"; cases "resp_id (net c) = next_id (net c) + (if 0 \<le> pos then 1 else 0)")
         (simp_all add: AddId_def Cmd_def PrintfLine_def in_response_def StartResponse_def
            EndResponse_def Let_def)
  next
    case False
    let ?t1 = "(net c)\<lparr>written := written (net c) @ [(''addid %q'', [S uri])],
      awaited := awaited (net c) @ [next_id (net c)], next_id := next_id (net c) + 1\<rparr>"
    have b1: "readAttrs ?t1 = (r, ?t1\<lparr>incoming := i, nreads := nreads ?t1 + k\<rparr>)"
      by (rule b) simp
    show ?thesis
      using c b0 b1 False
      by (cases "net c"; cases "resp_id (net c) = next_id (net c) + (if 0 \<le> pos then 1 else 0)")
         (simp_all add: AddId_def Cmd_def PrintfLine_def in_response_def StartResponse_def
            EndResponse_def Let_def)
  qed
qed




text \<open>
  With a position the id awaited is one ahead of the turn, which nothing advances: on a
  connection with no response outstanding the call does not return and reads nothing.
\<close>

lemma AddId_positional_blocks:
  assumes "text c = Ref" "wresults (net c) = []" "resp_id (net c) = next_id (net c)" "0 \<le> pos"
  shows "fst (AddId atoi uri pos c) = Blocked"
    and "nreads (net (snd (AddId atoi uri pos c))) = nreads (net c)"
  using assms(3,4) by (simp_all add: AddId_connected [OF assms(1,2)] Let_def)




end
